theory Spec2Isabelle
  imports Complex_Main "HOL-Library.Word" "HOL-Library.Sublist"
begin

section \<open>Filesystem helpers of package storage\<close>

text \<open>
  The helpers at the end of \<^verbatim>\<open>internal/storage/store.go\<close> call into the Go standard
  library (\<^verbatim>\<open>os.RemoveAll\<close>, \<^verbatim>\<open>os.Rename\<close>, \<^verbatim>\<open>ioutil.TempFile\<close>, \<^verbatim>\<open>ioutil.TempDir\<close>,
  \<^verbatim>\<open>time.Now\<close>). The standard library is not part of the repository, so the calls are
  parameters of the model: a record of operations over an abstract filesystem state
  \<open>'fs\<close>. A Go \<^verbatim>\<open>error\<close> result is an \<open>'e option\<close>, \<open>None\<close> being \<^verbatim>\<open>nil\<close>.
\<close>

type_synonym path = string

record ('fs, 'e) os =
  os_RemoveAll :: "path \<Rightarrow> 'fs \<Rightarrow> 'e option \<times> 'fs"
  os_Rename :: "path \<Rightarrow> path \<Rightarrow> 'fs \<Rightarrow> 'e option \<times> 'fs"
  os_Exists :: "path \<Rightarrow> 'fs \<Rightarrow> bool"

text \<open>
  \<^verbatim>\<open>
  func RenameFolder(src, dst string) error {
      if err := os.RemoveAll(dst); err != nil {
          return err
      }
      return os.Rename(src, dst)
  }
  \<close>
  \<open>os_Exists\<close> is never called by the code; it is the observation "there is something
  at this path" that the statements about the destination need.
\<close>

definition RenameFolder :: "('fs, 'e) os \<Rightarrow> path \<Rightarrow> path \<Rightarrow> 'fs \<Rightarrow> 'e option \<times> 'fs" where
  "RenameFolder sys src dst fs =
     (case os_RemoveAll sys dst fs of
        (Some err, fs1) \<Rightarrow> (Some err, fs1)
      | (None, fs1) \<Rightarrow> os_Rename sys src dst fs1)"

subsection \<open>Recording the calls that reach the operating system\<close>

datatype syscall = RemoveAll path | Rename path path

definition traced :: "('fs, 'e) os \<Rightarrow> ('fs \<times> syscall list, 'e) os" where
  "traced sys =
     \<lparr> os_RemoveAll = (\<lambda>p (fs, tr).
          (fst (os_RemoveAll sys p fs), (snd (os_RemoveAll sys p fs), tr @ [RemoveAll p]))),
       os_Rename = (\<lambda>s d (fs, tr).
          (fst (os_Rename sys s d fs), (snd (os_Rename sys s d fs), tr @ [Rename s d]))),
       os_Exists = (\<lambda>p (fs, tr). os_Exists sys p fs) \<rparr>"

subsection \<open>An in-memory filesystem\<close>

text \<open>
  A small stand-in for the operating system, used to run the helpers on concrete inputs:
  a table from paths to contents, and a list of paths whose removal is refused.
  Removing a path removes everything below it; renaming a path that does not exist fails
  and changes nothing.
\<close>

datatype errno = ENOENT | EACCES

record memfs =
  entries :: "path \<rightharpoonup> string"
  denied :: "path list"

definition below :: "path \<Rightarrow> path \<Rightarrow> bool" where
  "below d q \<longleftrightarrow> q = d \<or> prefix (d @ ''/'') q"

definition mem_RemoveAll :: "path \<Rightarrow> memfs \<Rightarrow> errno option \<times> memfs" where
  "mem_RemoveAll p fs =
     (if p \<in> set (denied fs) then (Some EACCES, fs)
      else (None, fs\<lparr>entries := (\<lambda>q. if below p q then None else entries fs q)\<rparr>))"

definition mem_Rename :: "path \<Rightarrow> path \<Rightarrow> memfs \<Rightarrow> errno option \<times> memfs" where
  "mem_Rename s d fs =
     (if entries fs s = None then (Some ENOENT, fs)
      else (None, fs\<lparr>entries := (\<lambda>q.
              if below d q then entries fs (s @ drop (length d) q)
              else if below s q then None
              else entries fs q)\<rparr>))"

definition mem_os :: "(memfs, errno) os" where
  "mem_os = \<lparr> os_RemoveAll = mem_RemoveAll, os_Rename = mem_Rename,
              os_Exists = (\<lambda>p fs. entries fs p \<noteq> None) \<rparr>"

definition disk0 :: memfs where
  "disk0 = \<lparr> entries = [''data'' \<mapsto> ''old'', ''data/1.sst'' \<mapsto> ''a'', ''stage'' \<mapsto> ''new'',
                        ''stage/2.sst'' \<mapsto> ''b''],
             denied = [''locked''] \<rparr>"

text \<open>
  The two contracts of the operating system that the statements about a destroyed
  destination rest on: a removal that reports success leaves nothing at the path, and a
  rename that reports an error has changed nothing.
\<close>

definition removal_complete :: "('fs, 'e) os \<Rightarrow> bool" where
  "removal_complete sys \<longleftrightarrow>
     (\<forall>p fs. fst (os_RemoveAll sys p fs) = None \<longrightarrow>
        \<not> os_Exists sys p (snd (os_RemoveAll sys p fs)))"

definition failed_rename_noop :: "('fs, 'e) os \<Rightarrow> bool" where
  "failed_rename_noop sys \<longleftrightarrow>
     (\<forall>s d fs. fst (os_Rename sys s d fs) \<noteq> None \<longrightarrow> snd (os_Rename sys s d fs) = fs)"

section \<open>Temporary files and folders\<close>

text \<open>
  \<^verbatim>\<open>time.Now()\<close> is read as a broken-down wall-clock time; \<^verbatim>\<open>Time.AppendFormat\<close> is
  interpreted for the reference-time chunks that occur in the layout of this package
  (\<^verbatim>\<open>2006 01 02 15 04 05\<close>), any other character being copied as it is. The layout
  constant is the source's.
\<close>

record wallclock =
  year :: int
  month :: nat
  day :: nat
  hour :: nat
  minute :: nat
  second :: nat

fun decimal :: "nat \<Rightarrow> string" where
  "decimal n = (if n < 10 then [''0123456789'' ! n]
                else decimal (n div 10) @ [''0123456789'' ! (n mod 10)])"

declare decimal.simps [simp del]

text \<open>
  \<^verbatim>\<open>appendInt(b, x, width)\<close> of package \<^verbatim>\<open>time\<close>: the decimal form of \<open>x\<close>, a minus sign
  first when it is negative, zero-padded to \<open>width\<close> digits.
\<close>

definition appendInt :: "string \<Rightarrow> int \<Rightarrow> nat \<Rightarrow> string" where
  "appendInt b x width =
     b @ (if x < 0 then ''-'' else [])
       @ replicate (width - length (decimal (nat \<bar>x\<bar>))) (CHR ''0'')
       @ decimal (nat \<bar>x\<bar>)"

function AppendFormat :: "wallclock \<Rightarrow> string \<Rightarrow> string \<Rightarrow> string" where
  "AppendFormat t b layout =
     (if layout = [] then b
      else if take 4 layout = ''2006''
        then AppendFormat t (appendInt b (year t) 4) (drop 4 layout)
      else if take 2 layout = ''01''
        then AppendFormat t (appendInt b (int (month t)) 2) (drop 2 layout)
      else if take 2 layout = ''02''
        then AppendFormat t (appendInt b (int (day t)) 2) (drop 2 layout)
      else if take 2 layout = ''15''
        then AppendFormat t (appendInt b (int (hour t)) 2) (drop 2 layout)
      else if take 2 layout = ''04''
        then AppendFormat t (appendInt b (int (minute t)) 2) (drop 2 layout)
      else if take 2 layout = ''05''
        then AppendFormat t (appendInt b (int (second t)) 2) (drop 2 layout)
      else AppendFormat t (b @ [hd layout]) (tl layout))"
  by pat_completeness auto
termination
  by (relation "measure (\<lambda>(t, b, layout). length layout)") auto

declare AppendFormat.simps [simp del]

definition timeFormatTempPath :: string where
  "timeFormatTempPath = ''20060102150405''"

text \<open>\<^verbatim>\<open>Time.Format\<close>: the formatted time on its own, that is, appended to an empty buffer.\<close>

definition Format :: "wallclock \<Rightarrow> string \<Rightarrow> string" where
  "Format t layout = AppendFormat t [] layout"

text \<open>
  The calls into \<^verbatim>\<open>time\<close> and \<^verbatim>\<open>ioutil\<close>, over a world \<open>'w\<close> that holds the clock and
  the filesystem. A Go result \<^verbatim>\<open>(*os.File, error)\<close> is a pair of options.
\<close>

record ('w, 'f, 'e) tmpapi =
  time_Now :: "'w \<Rightarrow> wallclock"
  ioutil_TempFile :: "path \<Rightarrow> string \<Rightarrow> 'w \<Rightarrow> ('f option \<times> 'e option) \<times> 'w"
  ioutil_TempDir :: "path \<Rightarrow> string \<Rightarrow> 'w \<Rightarrow> (string \<times> 'e option) \<times> 'w"

text \<open>
  \<^verbatim>\<open>
  func CreateTempFile(dir string, prefix string) (*os.File, error) {
      tempFilePrefix := time.Now().AppendFormat([]byte(prefix), timeFormatTempPath)
      tempFile, err := ioutil.TempFile(dir, string(tempFilePrefix))
      if err != nil {
          return nil, err
      }
      return tempFile, nil
  }
  func CreateTempFolder(dir string, prefix string) (string, error) {
      tempFolderPrefix := time.Now().AppendFormat([]byte(prefix), timeFormatTempPath)
      return ioutil.TempDir(dir, string(tempFolderPrefix))
  }
  \<close>
\<close>

definition CreateTempFile ::
  "('w, 'f, 'e) tmpapi \<Rightarrow> path \<Rightarrow> string \<Rightarrow> 'w \<Rightarrow> ('f option \<times> 'e option) \<times> 'w" where
  "CreateTempFile api dir pfx w =
     (let tempFilePrefix = AppendFormat (time_Now api w) pfx timeFormatTempPath in
      case ioutil_TempFile api dir tempFilePrefix w of
        ((tempFile, Some err), w') \<Rightarrow> ((None, Some err), w')
      | ((tempFile, None), w') \<Rightarrow> ((tempFile, None), w'))"

definition CreateTempFolder ::
  "('w, 'f, 'e) tmpapi \<Rightarrow> path \<Rightarrow> string \<Rightarrow> 'w \<Rightarrow> (string \<times> 'e option) \<times> 'w" where
  "CreateTempFolder api dir pfx w =
     (let tempFolderPrefix = AppendFormat (time_Now api w) pfx timeFormatTempPath in
      ioutil_TempDir api dir tempFolderPrefix w)"

text \<open>
  A stand-in for the two libraries, used to run the helpers: the world is the clock and
  the list of (directory, pattern) pairs that reached the temp-creation calls; the
  created name is the pattern with a fixed suffix.
\<close>

definition log_api :: "(wallclock \<times> (path \<times> string) list, string, errno) tmpapi" where
  "log_api =
     \<lparr> time_Now = fst,
       ioutil_TempFile = (\<lambda>dir pat (clk, calls).
          ((Some (dir @ ''/'' @ pat @ ''123456''), None), (clk, calls @ [(dir, pat)]))),
       ioutil_TempDir = (\<lambda>dir pat (clk, calls).
          ((dir @ ''/'' @ pat @ ''123456'', None), (clk, calls @ [(dir, pat)]))) \<rparr>"

definition noon :: wallclock where
  "noon = \<lparr> year = 2021, month = 3, day = 7, hour = 12, minute = 5, second = 9 \<rparr>"

section \<open>Metrics of a storage engine\<close>

text \<open>
  \<^verbatim>\<open>NewStat\<close> builds two Prometheus collectors and registers them. The Prometheus client
  is not part of the repository; what \<^verbatim>\<open>NewStat\<close> hands to it is modelled as plain data.
  The option structs keep the fields the source sets. A \<^verbatim>\<open>float64\<close> literal of the
  source is the rational number it is written as, and a \<^verbatim>\<open>time.Duration\<close> is a number of
  nanoseconds.
\<close>

record Opts =
  Namespace :: string
  Name :: string
  Help :: string

record SummaryOpts = Opts +
  Objectives :: "(rat \<times> rat) list"
  MaxAge :: int

datatype collector = SummaryVec SummaryOpts "string list" | CounterVec Opts "string list"

record Stat =
  RequestLatency :: collector
  ResponseError :: collector

definition time_Second :: int where
  "time_Second = 1000000000"

text \<open>
  The fully-qualified metric name of a collector, as \<^verbatim>\<open>prometheus.BuildFQName\<close> joins
  namespace, subsystem and name; \<^verbatim>\<open>NewStat\<close> sets no subsystem.
\<close>

definition BuildFQName :: "string \<Rightarrow> string \<Rightarrow> string \<Rightarrow> string" where
  "BuildFQName namespace subsystem name =
     (if name = [] then []
      else if namespace \<noteq> [] \<and> subsystem \<noteq> []
        then namespace @ ''_'' @ subsystem @ ''_'' @ name
      else if namespace \<noteq> [] then namespace @ ''_'' @ name
      else if subsystem \<noteq> [] then subsystem @ ''_'' @ name
      else name)"

fun fqName :: "collector \<Rightarrow> string" where
  "fqName (SummaryVec opts labelNames) = BuildFQName (Namespace opts) [] (Name opts)"
| "fqName (CounterVec opts labelNames) = BuildFQName (Namespace opts) [] (Name opts)"

text \<open>
  What \<^verbatim>\<open>NewStat\<close> takes from outside this file: the constants \<^verbatim>\<open>stats.Namespace\<close> and
  \<^verbatim>\<open>stats.Ops\<close> of package \<^verbatim>\<open>internal/stats\<close>, and the client library's check that a
  collector's descriptor is well formed (its rule for metric and label names).
\<close>

record deps =
  stats_Namespace :: string
  stats_Ops :: string
  desc_valid :: "collector \<Rightarrow> bool"

text \<open>
  A registry is the list of collectors registered with it. \<^verbatim>\<open>Register\<close> refuses a
  collector whose descriptor is invalid or whose fully-qualified name is registered
  already; \<^verbatim>\<open>MustRegister\<close> registers its arguments in order and panics with the first
  error, as the library documents both. The collectors registered before the panic stay
  registered.
\<close>

datatype reg_error = InvalidDescriptor | AlreadyRegistered

datatype panic = Panic reg_error

type_synonym registry = "collector list"

definition Register :: "deps \<Rightarrow> collector \<Rightarrow> registry \<Rightarrow> reg_error + registry" where
  "Register d c r =
     (if \<not> desc_valid d c then Inl InvalidDescriptor
      else if fqName c \<in> set (map fqName r) then Inl AlreadyRegistered
      else Inr (r @ [c]))"

fun MustRegister :: "deps \<Rightarrow> collector list \<Rightarrow> registry \<Rightarrow> panic option \<times> registry" where
  "MustRegister d [] r = (None, r)"
| "MustRegister d (c # cs) r =
     (case Register d c r of
        Inl err \<Rightarrow> (Some (Panic err), r)
      | Inr r' \<Rightarrow> MustRegister d cs r')"

text \<open>
  The \<^verbatim>\<open>prometheus.Registerer\<close> argument is a reference to a registry: the registries of
  the process are a store from references to registries, the process-global default
  registry being one of them.
  \<^verbatim>\<open>
  func NewStat(registry prometheus.Registerer, engine string) *Stat {
      RequestLatency := prometheus.NewSummaryVec(prometheus.SummaryOpts{
          Namespace:  stats.Namespace,
          Name:       fmt.Sprintf("storage_latency_%s", engine),
          Help:       fmt.Sprintf("Latency statistics for %s storage operations", engine),
          Objectives: map[float64]float64{0.5: 0.05, 0.9: 0.01, 0.99: 0.001},
          MaxAge:     10 * time.Second,
      }, []string{stats.Ops})
      ResponseError := prometheus.NewCounterVec(prometheus.CounterOpts{
          Namespace: stats.Namespace,
          Name:      fmt.Sprintf("storage_error_%s", engine),
          Help:      fmt.Sprintf("Error count for %s storage operations", engine),
      }, []string{stats.Ops})
      registry.MustRegister(RequestLatency, ResponseError)
      return &Stat{RequestLatency, ResponseError}
  }
  \<close>
  A panic is the left summand of the result.
\<close>

type_synonym registries = "nat \<Rightarrow> registry"

definition NewStat ::
  "deps \<Rightarrow> nat \<Rightarrow> string \<Rightarrow> registries \<Rightarrow> (panic + Stat) \<times> registries" where
  "NewStat d registry engine regs =
     (let latency = SummaryVec
            \<lparr> Namespace = stats_Namespace d,
              Name = ''storage_latency_'' @ engine,
              Help = ''Latency statistics for '' @ engine @ '' storage operations'',
              Objectives = [(0.5, 0.05), (0.9, 0.01), (0.99, 0.001)],
              MaxAge = 10 * time_Second \<rparr>
            [stats_Ops d];
          errors = CounterVec
            \<lparr> Namespace = stats_Namespace d,
              Name = ''storage_error_'' @ engine,
              Help = ''Error count for '' @ engine @ '' storage operations'' \<rparr>
            [stats_Ops d]
      in case MustRegister d [latency, errors] (regs registry) of
           (Some p, r') \<Rightarrow> (Inl p, regs(registry := r'))
         | (None, r') \<Rightarrow>
             (Inr \<lparr> RequestLatency = latency, ResponseError = errors \<rparr>,
              regs(registry := r')))"

definition dkv_deps :: deps where
  "dkv_deps = \<lparr> stats_Namespace = ''dkv'', stats_Ops = ''ops'', desc_valid = (\<lambda>c. True) \<rparr>"

section \<open>The contracts of the storage interfaces\<close>

text \<open>
  \<^verbatim>\<open>store.go\<close> declares \<^verbatim>\<open>KVStore\<close>, \<^verbatim>\<open>Backupable\<close>, \<^verbatim>\<open>ChangePropagator\<close> and
  \<^verbatim>\<open>ChangeApplier\<close> as interfaces; the engines that implement them and the protobuf
  package \<^verbatim>\<open>serverpb\<close> are not among the sources. The definitions of this section are
  reference implementations written from the specification. A byte slice is a list of
  bytes and \<^verbatim>\<open>nil\<close> is \<open>None\<close>; a \<^verbatim>\<open>uint64\<close> is a 64-bit word.
\<close>

type_synonym bytes = string

datatype error = StorageError | ClosedError | NotFoundError | ReplicationGapError | RestoreError

type_synonym keyspace = "bytes \<rightharpoonup> bytes"

text \<open>
  Modelled from the spec: \<^verbatim>\<open>KVStore.CompareAndSet\<close>, of which the source has the
  declaration only. "If current value at key equals expect (byte-wise), set to update
  and return (true, nil); otherwise return (false, nil). If expect is the zero/absent
  value, the key must not currently exist for the operation to succeed." The comparison
  walks the two byte sequences. The absent expected value is \<^verbatim>\<open>nil\<close>, which is not the
  empty byte sequence; a key that does not exist has no current value.
\<close>

fun bytes_equal :: "bytes \<Rightarrow> bytes \<Rightarrow> bool" where
  "bytes_equal [] [] = True"
| "bytes_equal (x # xs) (y # ys) = (x = y \<and> bytes_equal xs ys)"
| "bytes_equal _ _ = False"

definition CompareAndSet ::
  "bytes \<Rightarrow> bytes option \<Rightarrow> bytes \<Rightarrow> keyspace \<Rightarrow> (bool \<times> error option) \<times> keyspace" where
  "CompareAndSet key expect update s =
     (case (s key, expect) of
        (None, None) \<Rightarrow> ((True, None), s(key \<mapsto> update))
      | (Some current, Some e) \<Rightarrow>
          if bytes_equal current e then ((True, None), s(key \<mapsto> update))
          else ((False, None), s)
      | _ \<Rightarrow> ((False, None), s))"

text \<open>
  Modelled from the spec: \<^verbatim>\<open>serverpb.KVPair\<close> and \<^verbatim>\<open>KVStore.Get\<close>, of which the source
  has the declaration only. The engine's read of one key fails, finds nothing or finds a
  pair. "On partial failure the call fails wholesale with StorageError and returns no
  pairs": the pairs read so far are dropped at the first read that fails.
\<close>

record KVPair =
  Key :: bytes
  Value :: bytes
  ExpireTS :: "64 word"

datatype 'v engine_read = Failed | Absent | Found 'v

fun Get_from :: "(bytes \<Rightarrow> KVPair engine_read) \<Rightarrow> bytes list \<Rightarrow> KVPair list
    \<Rightarrow> KVPair list \<times> error option" where
  "Get_from rd [] acc = (acc, None)"
| "Get_from rd (k # ks) acc =
     (case rd k of
        Failed \<Rightarrow> ([], Some StorageError)
      | Absent \<Rightarrow> Get_from rd ks acc
      | Found p \<Rightarrow> Get_from rd ks (acc @ [p]))"

definition Get ::
  "(bytes \<Rightarrow> KVPair engine_read) \<Rightarrow> bytes list \<Rightarrow> KVPair list \<times> error option" where
  "Get rd keys = Get_from rd keys []"

fun found :: "'v engine_read \<Rightarrow> 'v list" where
  "found (Found p) = [p]"
| "found _ = []"

text \<open>An engine read to run \<open>Get\<close> on: one key is stored, one cannot be read.\<close>

definition flaky_read :: "bytes \<Rightarrow> KVPair engine_read" where
  "flaky_read k =
     (if k = ''bad'' then Failed
      else if k = ''a'' then Found \<lparr> Key = ''a'', Value = ''1'', ExpireTS = 0 \<rparr>
      else Absent)"

text \<open>
  Modelled from the spec: \<^verbatim>\<open>serverpb.ChangeRecord\<close> and \<^verbatim>\<open>ChangeApplier.SaveChanges\<close>, of
  which the source has the declaration only. A record is the atomic unit of replication:
  applying one either fails and leaves the state as it was, or gives the next state;
  how a record is applied is the engine's, a parameter here. "Applies the given records
  in the order supplied, one at a time. On the first record that fails to apply,
  processing stops immediately. Returns the changeNumber of the last record successfully
  applied together with the error from the failing record." The spec does not say what
  number is returned when no record of the call was applied; the loop starts from the
  zero value of \<^verbatim>\<open>uint64\<close>.
\<close>

datatype mutation = PutOp bytes bytes | DeleteOp bytes

record ChangeRecord =
  ChangeNumber :: "64 word"
  Mutations :: "mutation list"

fun SaveChanges_from ::
  "(ChangeRecord \<Rightarrow> 'st \<Rightarrow> error + 'st) \<Rightarrow> 64 word \<Rightarrow> ChangeRecord list \<Rightarrow> 'st
    \<Rightarrow> (64 word \<times> error option) \<times> 'st" where
  "SaveChanges_from ap applied [] s = ((applied, None), s)"
| "SaveChanges_from ap applied (c # cs) s =
     (case ap c s of
        Inl err \<Rightarrow> ((applied, Some err), s)
      | Inr s' \<Rightarrow> SaveChanges_from ap (ChangeNumber c) cs s')"

definition SaveChanges ::
  "(ChangeRecord \<Rightarrow> 'st \<Rightarrow> error + 'st) \<Rightarrow> ChangeRecord list \<Rightarrow> 'st
    \<Rightarrow> (64 word \<times> error option) \<times> 'st" where
  "SaveChanges ap changes s = SaveChanges_from ap 0 changes s"

text \<open>
  Applying a list of records in order, each to the state its predecessor left: the
  result when all of them succeed, the first error otherwise.
\<close>

definition apply_each ::
  "(ChangeRecord \<Rightarrow> 'st \<Rightarrow> error + 'st) \<Rightarrow> 'st \<Rightarrow> ChangeRecord list \<Rightarrow> error + 'st" where
  "apply_each ap s cs =
     foldl (\<lambda>r c. case r of Inl err \<Rightarrow> Inl err | Inr s' \<Rightarrow> ap c s') (Inr s) cs"

text \<open>
  An engine to run \<open>SaveChanges\<close> on: a record's mutations are written to the keyspace
  in order, and a record that names an empty key is rejected as a whole.
\<close>

fun apply_mutation :: "keyspace \<Rightarrow> mutation \<Rightarrow> keyspace" where
  "apply_mutation s (PutOp k v) = s(k \<mapsto> v)"
| "apply_mutation s (DeleteOp k) = s(k := None)"

fun mutation_key :: "mutation \<Rightarrow> bytes" where
  "mutation_key (PutOp k v) = k"
| "mutation_key (DeleteOp k) = k"

definition engine_apply :: "ChangeRecord \<Rightarrow> keyspace \<Rightarrow> error + keyspace" where
  "engine_apply c s =
     (if list_ex (\<lambda>m. mutation_key m = []) (Mutations c) then Inl StorageError
      else Inr (foldl apply_mutation s (Mutations c)))"

definition c10 :: ChangeRecord where
  "c10 = \<lparr> ChangeNumber = 10, Mutations = [PutOp ''a'' ''1''] \<rparr>"

definition c11 :: ChangeRecord where
  "c11 = \<lparr> ChangeNumber = 11, Mutations = [PutOp ''b'' ''2'', PutOp [] ''x''] \<rparr>"

definition c12 :: ChangeRecord where
  "c12 = \<lparr> ChangeNumber = 12, Mutations = [PutOp ''c'' ''3''] \<rparr>"

text \<open>
  Modelled from the spec: \<^verbatim>\<open>Backupable.RestoreFrom\<close>, of which the source has the
  declaration only. The stores of the process are objects in a heap, a capability is a
  reference into it (\<open>None\<close> is \<^verbatim>\<open>nil\<close>), and the backup medium maps a path to what
  a backup left there. "Reconstructs a fresh store from a prior backup at path and
  returns the full capability set (KVStore, Backupable, ChangePropagator, ChangeApplier,
  error). It does not mutate any existing in-memory store." A path with no backup or
  with a corrupt one is a \<open>RestoreError\<close>. The receiver is \<open>self\<close>.
\<close>

datatype backup = Corrupt | Image "(bytes \<times> bytes) list"

type_synonym heap = "keyspace list"

definition RestoreFrom ::
  "(path \<rightharpoonup> backup) \<Rightarrow> nat \<Rightarrow> path \<Rightarrow> heap
    \<Rightarrow> (nat option \<times> nat option \<times> nat option \<times> nat option \<times> error option) \<times> heap" where
  "RestoreFrom disk self p h =
     (case disk p of
        Some (Image kvs) \<Rightarrow>
          (let fresh = length h
           in ((Some fresh, Some fresh, Some fresh, Some fresh, None), h @ [map_of kvs]))
      | _ \<Rightarrow> ((None, None, None, None, Some RestoreError), h))"

definition backups0 :: "path \<rightharpoonup> backup" where
  "backups0 = [''/backup/1'' \<mapsto> Image [(''k'', ''v'')], ''/backup/torn'' \<mapsto> Corrupt]"

section \<open>RenameFolder: the order of the two steps and what a failure leaves\<close>

lemma traced_calls:
  "os_RemoveAll (traced sys) p (fs, tr) =
     (fst (os_RemoveAll sys p fs), (snd (os_RemoveAll sys p fs), tr @ [RemoveAll p]))"
  "os_Rename (traced sys) s d (fs, tr) =
     (fst (os_Rename sys s d fs), (snd (os_Rename sys s d fs), tr @ [Rename s d]))"
  by (simp_all add: traced_def)

lemma RenameFolder_steps:
  "RenameFolder sys src dst fs =
     (if fst (os_RemoveAll sys dst fs) = None
      then os_Rename sys src dst (snd (os_RemoveAll sys dst fs))
      else os_RemoveAll sys dst fs)"
  by (cases "os_RemoveAll sys dst fs") (auto simp: RenameFolder_def split: option.splits)

lemma RenameFolder_traced:
  "RenameFolder (traced sys) src dst (fs, tr) =
     (fst (RenameFolder sys src dst fs),
      (snd (RenameFolder sys src dst fs),
       (if fst (os_RemoveAll sys dst fs) = None
        then tr @ [RemoveAll dst, Rename src dst] else tr @ [RemoveAll dst])))"
  by (simp add: RenameFolder_steps traced_calls)

lemma mem_os_calls:
  "os_RemoveAll mem_os = mem_RemoveAll" "os_Rename mem_os = mem_Rename"
  "os_Exists mem_os p fs \<longleftrightarrow> entries fs p \<noteq> None"
  by (simp_all add: mem_os_def)

lemma mem_os_removal_complete: "removal_complete mem_os"
  by (simp add: removal_complete_def mem_os_calls mem_RemoveAll_def below_def)

lemma mem_os_failed_rename_noop: "failed_rename_noop mem_os"
  by (simp add: failed_rename_noop_def mem_os_calls mem_Rename_def)

text \<open>
  C4. RenameFolder finalises the swap by remove-then-rename. The calls that reach the
  operating system are RemoveAll on the destination first and, only when that removal
  reported no error, Rename of the source onto the destination; the rename runs on the
  filesystem the removal left. Recording the calls changes neither the result nor the
  filesystem.
\<close>

theorem RenameFolder_remove_then_rename:
  "snd (snd (RenameFolder (traced sys) src dst (fs, tr))) =
     (if fst (os_RemoveAll sys dst fs) = None
      then tr @ [RemoveAll dst, Rename src dst] else tr @ [RemoveAll dst])
   \<and> fst (RenameFolder (traced sys) src dst (fs, tr)) = fst (RenameFolder sys src dst fs)
   \<and> fst (snd (RenameFolder (traced sys) src dst (fs, tr))) = snd (RenameFolder sys src dst fs)
   \<and> (fst (os_RemoveAll sys dst fs) = None \<longrightarrow>
        RenameFolder sys src dst fs = os_Rename sys src dst (snd (os_RemoveAll sys dst fs)))"
proof -
  have "fst (os_RemoveAll sys dst fs) = None \<longrightarrow>
      RenameFolder sys src dst fs = os_Rename sys src dst (snd (os_RemoveAll sys dst fs))"
    by (simp add: RenameFolder_steps)
  then show ?thesis by (simp add: RenameFolder_traced)
qed

theorem RenameFolder_remove_then_rename_witness:
  "fst (os_RemoveAll mem_os ''data'' disk0) = None
   \<and> snd (snd (RenameFolder (traced mem_os) ''stage'' ''data'' (disk0, []))) =
       [RemoveAll ''data'', Rename ''stage'' ''data'']
   \<and> fst (RenameFolder mem_os ''stage'' ''data'' disk0) = None
   \<and> entries (snd (RenameFolder mem_os ''stage'' ''data'' disk0)) ''data'' = Some ''new''
   \<and> entries (snd (RenameFolder mem_os ''stage'' ''data'' disk0)) ''data/1.sst'' = None
   \<and> entries (snd (RenameFolder mem_os ''stage'' ''data'' disk0)) ''data/2.sst'' = Some ''b''
   \<and> entries (snd (RenameFolder mem_os ''stage'' ''data'' disk0)) ''stage'' = None"
  using RenameFolder_remove_then_rename
    [where sys = mem_os and src = "''stage''" and dst = "''data''" and fs = disk0 and tr = "[]"]
  by (simp add: mem_os_calls mem_RemoveAll_def mem_Rename_def disk0_def below_def)

text \<open>
  C5, as the claim states it: whenever RenameFolder returns an error, the destination is
  as it was before the call. It fails when the source does not exist: the destination
  \<open>data\<close> holds \<open>old\<close> before the call, the call returns \<open>ENOENT\<close>, and nothing is
  at \<open>data\<close> afterwards.
\<close>

theorem RenameFolder_dst_unchanged_counterexample:
  "fst (RenameFolder mem_os ''missing'' ''data'' disk0) = Some ENOENT
   \<and> entries disk0 ''data'' = Some ''old''
   \<and> entries (snd (RenameFolder mem_os ''missing'' ''data'' disk0)) ''data'' = None"
  by (simp add: RenameFolder_steps mem_os_calls mem_RemoveAll_def mem_Rename_def disk0_def
      below_def)

text \<open>
  C5, amended. If a step of RenameFolder fails, its error is surfaced to the caller:
  when RemoveAll on the destination fails, RenameFolder returns that error, the
  filesystem is as that call left it and no rename is attempted; when RemoveAll succeeds
  and Rename fails, RenameFolder returns the rename's error, on the filesystem from
  which the destination had already been removed. Conversely, an error returned by
  RenameFolder is the error of one of these two steps. The prior state of the
  destination is not restored.
\<close>

theorem RenameFolder_error_surfaced:
  "(fst (os_RemoveAll sys dst fs) = Some e \<longrightarrow>
      RenameFolder sys src dst fs = (Some e, snd (os_RemoveAll sys dst fs))
      \<and> snd (snd (RenameFolder (traced sys) src dst (fs, []))) = [RemoveAll dst])
   \<and> (fst (os_RemoveAll sys dst fs) = None
       \<and> fst (os_Rename sys src dst (snd (os_RemoveAll sys dst fs))) = Some e \<longrightarrow>
      RenameFolder sys src dst fs =
        (Some e, snd (os_Rename sys src dst (snd (os_RemoveAll sys dst fs)))))
   \<and> (fst (RenameFolder sys src dst fs) = Some e \<longrightarrow>
       os_RemoveAll sys dst fs = (Some e, snd (RenameFolder sys src dst fs))
       \<or> (fst (os_RemoveAll sys dst fs) = None
          \<and> os_Rename sys src dst (snd (os_RemoveAll sys dst fs)) =
              (Some e, snd (RenameFolder sys src dst fs))))"
proof (intro conjI impI)
  assume rm: "fst (os_RemoveAll sys dst fs) = Some e"
  then show "RenameFolder sys src dst fs = (Some e, snd (os_RemoveAll sys dst fs))"
    by (simp add: RenameFolder_steps prod_eq_iff)
  from rm show "snd (snd (RenameFolder (traced sys) src dst (fs, []))) = [RemoveAll dst]"
    by (simp add: RenameFolder_traced)
next
  assume "fst (os_RemoveAll sys dst fs) = None
    \<and> fst (os_Rename sys src dst (snd (os_RemoveAll sys dst fs))) = Some e"
  then show "RenameFolder sys src dst fs =
      (Some e, snd (os_Rename sys src dst (snd (os_RemoveAll sys dst fs))))"
    by (simp add: RenameFolder_steps prod_eq_iff)
next
  assume "fst (RenameFolder sys src dst fs) = Some e"
  then show "os_RemoveAll sys dst fs = (Some e, snd (RenameFolder sys src dst fs))
       \<or> (fst (os_RemoveAll sys dst fs) = None
          \<and> os_Rename sys src dst (snd (os_RemoveAll sys dst fs)) =
              (Some e, snd (RenameFolder sys src dst fs)))"
    by (auto simp: RenameFolder_steps prod_eq_iff split: if_splits)
qed

theorem RenameFolder_error_surfaced_witness:
  "fst (os_RemoveAll mem_os ''locked'' disk0) = Some EACCES
   \<and> RenameFolder mem_os ''stage'' ''locked'' disk0 = (Some EACCES, disk0)
   \<and> snd (snd (RenameFolder (traced mem_os) ''stage'' ''locked'' (disk0, []))) =
       [RemoveAll ''locked'']
   \<and> fst (os_RemoveAll mem_os ''data'' disk0) = None
   \<and> fst (os_Rename mem_os ''missing'' ''data'' (snd (os_RemoveAll mem_os ''data'' disk0))) =
       Some ENOENT
   \<and> fst (RenameFolder mem_os ''missing'' ''data'' disk0) = Some ENOENT
   \<and> snd (RenameFolder mem_os ''missing'' ''data'' disk0) =
       snd (os_RemoveAll mem_os ''data'' disk0)"
proof -
  have rm1: "fst (os_RemoveAll mem_os ''locked'' disk0) = Some EACCES"
    and left1: "snd (os_RemoveAll mem_os ''locked'' disk0) = disk0"
    by (simp_all add: mem_os_calls mem_RemoveAll_def disk0_def)
  have rm2: "fst (os_RemoveAll mem_os ''data'' disk0) = None"
    by (simp add: mem_os_calls mem_RemoveAll_def disk0_def)
  have mv2: "fst (os_Rename mem_os ''missing'' ''data'' (snd (os_RemoveAll mem_os ''data'' disk0)))
      = Some ENOENT"
    and left2: "snd (os_Rename mem_os ''missing'' ''data''
        (snd (os_RemoveAll mem_os ''data'' disk0))) = snd (os_RemoveAll mem_os ''data'' disk0)"
    by (simp_all add: mem_os_calls mem_RemoveAll_def mem_Rename_def disk0_def below_def)
  show ?thesis
    using RenameFolder_error_surfaced
      [where sys = mem_os and src = "''stage''" and dst = "''locked''" and fs = disk0
         and e = EACCES]
      RenameFolder_error_surfaced
      [where sys = mem_os and src = "''missing''" and dst = "''data''" and fs = disk0
         and e = ENOENT]
      rm1 left1 rm2 mv2 left2
    by simp
qed

text \<open>
  C9. RenameFolder removes the destination before anything about the source is looked
  at: the first call that reaches the operating system is RemoveAll on the destination,
  whatever the source. When that removal succeeds and the rename then fails, the call
  returns the rename's error and the destination no longer exists. (That a successful
  removal leaves nothing at the path, and that a failed rename changes nothing, are the
  operating system's contracts.)
\<close>

theorem RenameFolder_destroys_dst_when_rename_fails:
  assumes "removal_complete sys" and "failed_rename_noop sys"
    and "fst (os_RemoveAll sys dst fs) = None"
    and "fst (os_Rename sys src dst (snd (os_RemoveAll sys dst fs))) = Some e"
  shows "fst (RenameFolder sys src dst fs) = Some e
         \<and> snd (RenameFolder sys src dst fs) = snd (os_RemoveAll sys dst fs)
         \<and> \<not> os_Exists sys dst (snd (RenameFolder sys src dst fs))
         \<and> take 1 (snd (snd (RenameFolder (traced sys) src dst (fs, [])))) = [RemoveAll dst]"
proof -
  let ?fs1 = "snd (os_RemoveAll sys dst fs)"
  have run: "RenameFolder sys src dst fs = os_Rename sys src dst ?fs1"
    using assms(3) by (simp add: RenameFolder_steps)
  have gone: "\<not> os_Exists sys dst ?fs1"
    using assms(1,3) by (simp add: removal_complete_def)
  have same: "snd (os_Rename sys src dst ?fs1) = ?fs1"
    using assms(2,4) by (simp add: failed_rename_noop_def)
  have first: "take 1 (snd (snd (RenameFolder (traced sys) src dst (fs, [])))) = [RemoveAll dst]"
    by (simp add: RenameFolder_traced)
  show ?thesis using run gone same first assms(4) by simp
qed

theorem RenameFolder_destroys_dst_when_rename_fails_witness:
  "removal_complete mem_os \<and> failed_rename_noop mem_os
   \<and> os_Exists mem_os ''data'' disk0
   \<and> fst (os_RemoveAll mem_os ''data'' disk0) = None
   \<and> fst (os_Rename mem_os ''missing'' ''data'' (snd (os_RemoveAll mem_os ''data'' disk0))) =
       Some ENOENT
   \<and> fst (RenameFolder mem_os ''missing'' ''data'' disk0) = Some ENOENT
   \<and> \<not> os_Exists mem_os ''data'' (snd (RenameFolder mem_os ''missing'' ''data'' disk0))
   \<and> take 1 (snd (snd (RenameFolder (traced mem_os) ''missing'' ''data'' (disk0, [])))) =
       [RemoveAll ''data'']"
proof -
  have rm: "fst (os_RemoveAll mem_os ''data'' disk0) = None"
    by (simp add: mem_os_calls mem_RemoveAll_def disk0_def)
  have mv: "fst (os_Rename mem_os ''missing'' ''data'' (snd (os_RemoveAll mem_os ''data'' disk0)))
      = Some ENOENT"
    by (simp add: mem_os_calls mem_RemoveAll_def mem_Rename_def disk0_def below_def)
  have before: "os_Exists mem_os ''data'' disk0"
    by (simp add: mem_os_calls disk0_def)
  show ?thesis
    using RenameFolder_destroys_dst_when_rename_fails
      [OF mem_os_removal_complete mem_os_failed_rename_noop rm mv]
      mem_os_removal_complete mem_os_failed_rename_noop rm mv before
    by blast
qed

section \<open>Temporary names: the prefix and the timestamp\<close>

lemma AppendFormat_timeFormatTempPath:
  "AppendFormat t b timeFormatTempPath =
     b @ appendInt [] (year t) 4 @ appendInt [] (int (month t)) 2 @ appendInt [] (int (day t)) 2
       @ appendInt [] (int (hour t)) 2 @ appendInt [] (int (minute t)) 2
       @ appendInt [] (int (second t)) 2"
  unfolding timeFormatTempPath_def
  apply (simp add: AppendFormat.simps)
  apply (simp add: appendInt_def)
  done

lemma Format_timeFormatTempPath:
  "Format t timeFormatTempPath =
     appendInt [] (year t) 4 @ appendInt [] (int (month t)) 2 @ appendInt [] (int (day t)) 2
       @ appendInt [] (int (hour t)) 2 @ appendInt [] (int (minute t)) 2
       @ appendInt [] (int (second t)) 2"
  by (simp add: Format_def AppendFormat_timeFormatTempPath)

lemma AppendFormat_Format:
  "AppendFormat t b timeFormatTempPath = b @ Format t timeFormatTempPath"
  by (simp add: Format_def AppendFormat_timeFormatTempPath [of t b]
      AppendFormat_timeFormatTempPath [of t "[]"])

lemma decimal_digits: "set (decimal n) \<subseteq> set ''0123456789''"
proof (induction n rule: decimal.induct)
  case (1 n)
  have m: "''0123456789'' ! k \<in> set ''0123456789''" if "k < 10" for k
    using that nth_mem [of k "''0123456789''"] by simp
  show ?case
  proof (cases "n < 10")
    case True
    then show ?thesis using m [of n] by (subst decimal.simps) simp
  next
    case False
    then show ?thesis using 1 m [of "n mod 10"] by (subst decimal.simps) simp
  qed
qed

lemma length_decimal: "0 < k \<Longrightarrow> n < 10 ^ k \<Longrightarrow> length (decimal n) \<le> k"
proof (induction n arbitrary: k rule: decimal.induct)
  case (1 n)
  show ?case
  proof (cases "n < 10")
    case True
    then show ?thesis using 1(2) by (subst decimal.simps) simp
  next
    case False
    have "k \<noteq> 1" using False 1(3) by auto
    with 1(2) have "1 < k" by simp
    then obtain j where j: "k = Suc j" "0 < j" by (cases k) auto
    have "n div 10 < 10 ^ j"
      using 1(3) j by (simp add: less_mult_imp_div_less mult.commute)
    then have "length (decimal (n div 10)) \<le> j" using 1(1) [OF False j(2)] by simp
    then show ?thesis using False j by (subst decimal.simps) simp
  qed
qed

lemma length_appendInt:
  assumes "0 \<le> x" and "x < 10 ^ w" and "0 < w"
  shows "length (appendInt [] x w) = w"
proof -
  have "nat \<bar>x\<bar> < 10 ^ w" using assms by (simp add: nat_less_iff)
  then have "length (decimal (nat \<bar>x\<bar>)) \<le> w" using assms(3) length_decimal by blast
  then show ?thesis using assms by (simp add: appendInt_def)
qed

lemma digits_appendInt: "0 \<le> x \<Longrightarrow> set (appendInt [] x w) \<subseteq> set ''0123456789''"
  using decimal_digits [of "nat \<bar>x\<bar>"] by (auto simp: appendInt_def)

lemma Format_fourteen_digits:
  assumes "0 \<le> year t" "year t \<le> 9999" "month t < 100" "day t < 100" "hour t < 100"
    "minute t < 100" "second t < 100"
  shows "length (Format t timeFormatTempPath) = 14"
    and "set (Format t timeFormatTempPath) \<subseteq> set ''0123456789''"
proof -
  have y: "length (appendInt [] (year t) 4) = 4"
    using assms(1,2) by (intro length_appendInt) simp_all
  have two: "length (appendInt [] (int n) 2) = 2" if "n < 100" for n
    using that by (intro length_appendInt) simp_all
  show "length (Format t timeFormatTempPath) = 14"
    using y two assms by (simp add: Format_timeFormatTempPath)
  show "set (Format t timeFormatTempPath) \<subseteq> set ''0123456789''"
    unfolding Format_timeFormatTempPath set_append
    using digits_appendInt [of "year t" 4] assms(1)
      digits_appendInt [of "int (month t)" 2] digits_appendInt [of "int (day t)" 2]
      digits_appendInt [of "int (hour t)" 2] digits_appendInt [of "int (minute t)" 2]
      digits_appendInt [of "int (second t)" 2]
    by (meson Un_least of_nat_0_le_iff)
qed

lemma decimal_noon:
  "decimal 2021 = ''2021''" "decimal 3 = ''3''" "decimal 7 = ''7''" "decimal 12 = ''12''"
  "decimal 5 = ''5''" "decimal 9 = ''9''"
  by (simp_all add: decimal.simps)

text \<open>
  C7. CreateTempFile and CreateTempFolder pass to the temp-creation call of the library,
  as the name pattern, the given prefix immediately followed by the current wall-clock
  time formatted with the layout \<open>20060102150405\<close>: year on four digits, then month,
  day, hour, minute and second on two digits each, zero-padded. For a clock reading in
  the calendar's range that is fourteen decimal digits. The directory is passed on as
  given, and the library's result is returned as it is.
\<close>

theorem CreateTemp_prefix_then_timestamp:
  "CreateTempFile api dir pfx w =
     (case ioutil_TempFile api dir (pfx @ Format (time_Now api w) timeFormatTempPath) w of
        ((tempFile, Some err), w') \<Rightarrow> ((None, Some err), w')
      | ((tempFile, None), w') \<Rightarrow> ((tempFile, None), w'))
   \<and> CreateTempFolder api dir pfx w =
       ioutil_TempDir api dir (pfx @ Format (time_Now api w) timeFormatTempPath) w
   \<and> Format t timeFormatTempPath =
       appendInt [] (year t) 4 @ appendInt [] (int (month t)) 2 @ appendInt [] (int (day t)) 2
         @ appendInt [] (int (hour t)) 2 @ appendInt [] (int (minute t)) 2
         @ appendInt [] (int (second t)) 2
   \<and> (0 \<le> year t \<and> year t \<le> 9999 \<and> month t < 100 \<and> day t < 100 \<and> hour t < 100
        \<and> minute t < 100 \<and> second t < 100 \<longrightarrow>
        length (Format t timeFormatTempPath) = 14
        \<and> set (Format t timeFormatTempPath) \<subseteq> set ''0123456789'')"
  using Format_fourteen_digits [of t]
  by (simp add: CreateTempFile_def CreateTempFolder_def AppendFormat_Format
      Format_timeFormatTempPath [symmetric])

theorem CreateTemp_prefix_then_timestamp_witness:
  "Format noon timeFormatTempPath = ''20210307120509''
   \<and> length (Format noon timeFormatTempPath) = 14
   \<and> CreateTempFolder log_api ''/tmp'' ''restore-'' (noon, []) =
       ((''/tmp/restore-20210307120509123456'', None),
        (noon, [(''/tmp'', ''restore-20210307120509'')]))
   \<and> CreateTempFile log_api ''/tmp'' ''restore-'' (noon, []) =
       ((Some ''/tmp/restore-20210307120509123456'', None),
        (noon, [(''/tmp'', ''restore-20210307120509'')]))"
  using CreateTemp_prefix_then_timestamp
    [where api = log_api and dir = "''/tmp''" and pfx = "''restore-''" and w = "(noon, [])"
       and t = noon]
  by (simp add: log_api_def noon_def appendInt_def decimal_noon)

section \<open>NewStat: the collectors and the registry they go to\<close>

lemma MustRegister_two:
  "MustRegister d [a, b] r =
     (if \<not> desc_valid d a then (Some (Panic InvalidDescriptor), r)
      else if fqName a \<in> fqName ` set r then (Some (Panic AlreadyRegistered), r)
      else if \<not> desc_valid d b then (Some (Panic InvalidDescriptor), r @ [a])
      else if fqName b \<in> fqName ` set r \<or> fqName b = fqName a
        then (Some (Panic AlreadyRegistered), r @ [a])
      else (None, r @ [a, b]))"
  by (auto simp: Register_def)

lemma MustRegister_two_ok:
  assumes "fst (MustRegister d [a, b] r) = None"
  shows "snd (MustRegister d [a, b] r) = r @ [a, b]" and "desc_valid d a"
  using assms by (auto simp del: MustRegister.simps simp add: MustRegister_two split: if_splits)

lemma MustRegister_again:
  assumes "desc_valid d a"
  shows "MustRegister d [a, b] (r @ [a, b]) = (Some (Panic AlreadyRegistered), r @ [a, b])"
  using assms by (simp del: MustRegister.simps add: MustRegister_two)

lemma NewStat_collectors:
  "\<exists>sopts copts.
     Namespace sopts = stats_Namespace d \<and> Name sopts = ''storage_latency_'' @ engine
     \<and> set (map fst (Objectives sopts)) = {0.5, 0.9, 0.99}
     \<and> MaxAge sopts = 10 * time_Second
     \<and> Namespace copts = stats_Namespace d \<and> Name copts = ''storage_error_'' @ engine
     \<and> (\<forall>regs. NewStat d registry engine regs =
          (case MustRegister d [SummaryVec sopts [stats_Ops d], CounterVec copts [stats_Ops d]]
                  (regs registry) of
             (Some p, r') \<Rightarrow> (Inl p, regs(registry := r'))
           | (None, r') \<Rightarrow>
               (Inr \<lparr> RequestLatency = SummaryVec sopts [stats_Ops d],
                       ResponseError = CounterVec copts [stats_Ops d] \<rparr>,
                regs(registry := r'))))"
  apply (rule exI [of _ "\<lparr> Namespace = stats_Namespace d,
              Name = ''storage_latency_'' @ engine,
              Help = ''Latency statistics for '' @ engine @ '' storage operations'',
              Objectives = [(0.5, 0.05), (0.9, 0.01), (0.99, 0.001)],
              MaxAge = 10 * time_Second \<rparr>"])
  apply (rule exI [of _ "\<lparr> Namespace = stats_Namespace d,
              Name = ''storage_error_'' @ engine,
              Help = ''Error count for '' @ engine @ '' storage operations'' \<rparr>"])
  apply (intro conjI allI)
        apply simp
       apply simp
      apply simp
     apply simp
    apply simp
   apply simp
  apply (simp only: NewStat_def Let_def)
  done

lemma NewStat_badger:
  "NewStat dkv_deps 2 ''badger'' (\<lambda>r. []) =
     (Inr \<lparr> RequestLatency = SummaryVec
              \<lparr> Namespace = ''dkv'', Name = ''storage_latency_badger'',
                Help = ''Latency statistics for badger storage operations'',
                Objectives = [(0.5, 0.05), (0.9, 0.01), (0.99, 0.001)],
                MaxAge = 10 * time_Second \<rparr> [''ops''],
            ResponseError = CounterVec
              \<lparr> Namespace = ''dkv'', Name = ''storage_error_badger'',
                Help = ''Error count for badger storage operations'' \<rparr> [''ops''] \<rparr>,
      (\<lambda>r. [])(2 := [SummaryVec
              \<lparr> Namespace = ''dkv'', Name = ''storage_latency_badger'',
                Help = ''Latency statistics for badger storage operations'',
                Objectives = [(0.5, 0.05), (0.9, 0.01), (0.99, 0.001)],
                MaxAge = 10 * time_Second \<rparr> [''ops''],
            CounterVec
              \<lparr> Namespace = ''dkv'', Name = ''storage_error_badger'',
                Help = ''Error count for badger storage operations'' \<rparr> [''ops'']]))"
  by (simp add: NewStat_def Let_def Register_def dkv_deps_def BuildFQName_def)

text \<open>
  C8. For every engine name and registry, NewStat constructs a latency summary labelled
  by the operation name (\<open>stats.Ops\<close>), with quantile objectives at exactly 0.5, 0.9 and
  0.99 and a window (MaxAge) of ten seconds, and an error counter with the same label;
  it calls MustRegister on the registry it was given with exactly these two collectors,
  and no other registry of the process changes. When the call returns, the Stat holds
  the two collectors and both are registered with the given registry.
\<close>

theorem NewStat_registers_with_injected_registry:
  "\<exists>sopts copts.
     Namespace sopts = stats_Namespace d \<and> Name sopts = ''storage_latency_'' @ engine
     \<and> set (map fst (Objectives sopts)) = {0.5, 0.9, 0.99}
     \<and> MaxAge sopts = 10 * time_Second
     \<and> Namespace copts = stats_Namespace d \<and> Name copts = ''storage_error_'' @ engine
     \<and> snd (NewStat d registry engine regs) =
         regs(registry := snd (MustRegister d
           [SummaryVec sopts [stats_Ops d], CounterVec copts [stats_Ops d]] (regs registry)))
     \<and> (\<forall>other. other \<noteq> registry \<longrightarrow> snd (NewStat d registry engine regs) other = regs other)
     \<and> (\<forall>st. fst (NewStat d registry engine regs) = Inr st \<longrightarrow>
           st = \<lparr> RequestLatency = SummaryVec sopts [stats_Ops d],
                  ResponseError = CounterVec copts [stats_Ops d] \<rparr>
           \<and> snd (NewStat d registry engine regs) registry =
               regs registry @ [SummaryVec sopts [stats_Ops d], CounterVec copts [stats_Ops d]])"
proof -
  obtain sopts copts where
    opts: "Namespace sopts = stats_Namespace d" "Name sopts = ''storage_latency_'' @ engine"
      "set (map fst (Objectives sopts)) = {0.5, 0.9, 0.99}" "MaxAge sopts = 10 * time_Second"
      "Namespace copts = stats_Namespace d" "Name copts = ''storage_error_'' @ engine"
    and run: "\<And>regs. NewStat d registry engine regs =
          (case MustRegister d [SummaryVec sopts [stats_Ops d], CounterVec copts [stats_Ops d]]
                  (regs registry) of
             (Some p, r') \<Rightarrow> (Inl p, regs(registry := r'))
           | (None, r') \<Rightarrow>
               (Inr \<lparr> RequestLatency = SummaryVec sopts [stats_Ops d],
                       ResponseError = CounterVec copts [stats_Ops d] \<rparr>,
                regs(registry := r')))"
    using NewStat_collectors [of d engine registry] by blast
  let ?cs = "[SummaryVec sopts [stats_Ops d], CounterVec copts [stats_Ops d]]"
  obtain p r' where m: "MustRegister d ?cs (regs registry) = (p, r')"
    by (cases "MustRegister d ?cs (regs registry)")
  have res: "NewStat d registry engine regs =
      (case p of
         Some q \<Rightarrow> (Inl q, regs(registry := r'))
       | None \<Rightarrow>
           (Inr \<lparr> RequestLatency = SummaryVec sopts [stats_Ops d],
                   ResponseError = CounterVec copts [stats_Ops d] \<rparr>,
            regs(registry := r')))"
    by (simp only: run m prod.case)
  have state: "snd (NewStat d registry engine regs) = regs(registry := r')"
    by (cases p) (simp_all only: res option.case snd_conv)
  have ok: "st = \<lparr> RequestLatency = SummaryVec sopts [stats_Ops d],
                    ResponseError = CounterVec copts [stats_Ops d] \<rparr>
            \<and> r' = regs registry @ ?cs"
    if "fst (NewStat d registry engine regs) = Inr st" for st
  proof (cases p)
    case None
    with m have "fst (MustRegister d ?cs (regs registry)) = None" by (simp only: fst_conv)
    then have "snd (MustRegister d ?cs (regs registry)) = regs registry @ ?cs"
      by (rule MustRegister_two_ok(1))
    with m have "r' = regs registry @ ?cs" by (simp only: snd_conv)
    moreover have "st = \<lparr> RequestLatency = SummaryVec sopts [stats_Ops d],
                    ResponseError = CounterVec copts [stats_Ops d] \<rparr>"
      using that None by (simp add: res)
    ultimately show ?thesis by simp
  next
    case (Some q)
    with that show ?thesis by (simp add: res)
  qed
  show ?thesis
    apply (rule exI [of _ sopts])
    apply (rule exI [of _ copts])
    using opts state m ok by (simp del: MustRegister.simps)
qed

theorem NewStat_registers_with_injected_registry_witness:
  "(case fst (NewStat dkv_deps 2 ''badger'' (\<lambda>r. [])) of
      Inl p \<Rightarrow> False
    | Inr st \<Rightarrow> fqName (RequestLatency st) = ''dkv_storage_latency_badger''
               \<and> fqName (ResponseError st) = ''dkv_storage_error_badger'')
   \<and> map fqName (snd (NewStat dkv_deps 2 ''badger'' (\<lambda>r. [])) 2) =
       [''dkv_storage_latency_badger'', ''dkv_storage_error_badger'']
   \<and> snd (NewStat dkv_deps 2 ''badger'' (\<lambda>r. [])) 0 = []"
proof -
  have run: "(case fst (NewStat dkv_deps 2 ''badger'' (\<lambda>r. [])) of
        Inl p \<Rightarrow> False
      | Inr st \<Rightarrow> fqName (RequestLatency st) = ''dkv_storage_latency_badger''
                 \<and> fqName (ResponseError st) = ''dkv_storage_error_badger'')
     \<and> map fqName (snd (NewStat dkv_deps 2 ''badger'' (\<lambda>r. [])) 2) =
         [''dkv_storage_latency_badger'', ''dkv_storage_error_badger'']"
    by (simp add: NewStat_badger BuildFQName_def)
  from NewStat_registers_with_injected_registry
    [where d = dkv_deps and registry = 2 and engine = "''badger''" and regs = "\<lambda>r. []"]
  have "\<forall>other. other \<noteq> 2 \<longrightarrow> snd (NewStat dkv_deps 2 ''badger'' (\<lambda>r. [])) other = []"
    by blast
  then have "snd (NewStat dkv_deps 2 ''badger'' (\<lambda>r. [])) 0 = []"
    by simp
  with run show ?thesis by blast
qed

text \<open>
  C10. NewStat registers through MustRegister, which panics where Register would return
  an error, and NewStat has no error result. After a call of NewStat that returned, a
  second call with the same engine name on the same registry finds the name of the
  latency summary registered already and panics; it registers nothing.
\<close>

theorem NewStat_twice_panics:
  assumes "fst (NewStat d registry engine regs) = Inr st"
  shows "NewStat d registry engine (snd (NewStat d registry engine regs)) =
           (Inl (Panic AlreadyRegistered), snd (NewStat d registry engine regs))"
proof -
  obtain sopts copts where
    run: "\<And>regs. NewStat d registry engine regs =
          (case MustRegister d [SummaryVec sopts [stats_Ops d], CounterVec copts [stats_Ops d]]
                  (regs registry) of
             (Some p, r') \<Rightarrow> (Inl p, regs(registry := r'))
           | (None, r') \<Rightarrow>
               (Inr \<lparr> RequestLatency = SummaryVec sopts [stats_Ops d],
                       ResponseError = CounterVec copts [stats_Ops d] \<rparr>,
                regs(registry := r')))"
    using NewStat_collectors [of d engine registry] by blast
  let ?a = "SummaryVec sopts [stats_Ops d]" and ?b = "CounterVec copts [stats_Ops d]"
  obtain p r' where m: "MustRegister d [?a, ?b] (regs registry) = (p, r')"
    by (cases "MustRegister d [?a, ?b] (regs registry)")
  have first: "NewStat d registry engine regs =
      (case p of
         Some q \<Rightarrow> (Inl q, regs(registry := r'))
       | None \<Rightarrow> (Inr \<lparr> RequestLatency = ?a, ResponseError = ?b \<rparr>, regs(registry := r')))"
    by (simp only: run m prod.case)
  have none: "p = None" using assms by (cases p) (simp_all add: first)
  with m have "fst (MustRegister d [?a, ?b] (regs registry)) = None" by (simp only: fst_conv)
  then have "snd (MustRegister d [?a, ?b] (regs registry)) = regs registry @ [?a, ?b]"
    and valid: "desc_valid d ?a"
    by (rule MustRegister_two_ok)+
  with m have r': "r' = regs registry @ [?a, ?b]" by (simp only: snd_conv)
  have after: "snd (NewStat d registry engine regs) = regs(registry := regs registry @ [?a, ?b])"
    using none r' by (simp add: first)
  have "NewStat d registry engine (regs(registry := regs registry @ [?a, ?b])) =
      (Inl (Panic AlreadyRegistered), regs(registry := regs registry @ [?a, ?b]))"
    by (simp only: run fun_upd_same MustRegister_again [OF valid] prod.case option.case
        fun_upd_upd)
  then show ?thesis by (simp only: after)
qed

theorem NewStat_twice_panics_witness:
  "(case fst (NewStat dkv_deps 2 ''badger'' (\<lambda>r. [])) of Inl p \<Rightarrow> False | Inr st \<Rightarrow> True)
   \<and> fst (NewStat dkv_deps 2 ''badger'' (snd (NewStat dkv_deps 2 ''badger'' (\<lambda>r. [])))) =
       Inl (Panic AlreadyRegistered)
   \<and> length (snd (NewStat dkv_deps 2 ''badger''
        (snd (NewStat dkv_deps 2 ''badger'' (\<lambda>r. [])))) 2) = 2"
proof -
  obtain st where ok: "fst (NewStat dkv_deps 2 ''badger'' (\<lambda>r. [])) = Inr st"
    by (simp add: NewStat_badger)
  have two: "length (snd (NewStat dkv_deps 2 ''badger'' (\<lambda>r. [])) 2) = 2"
    by (simp add: NewStat_badger)
  show ?thesis
    using NewStat_twice_panics [OF ok] ok two by simp
qed

section \<open>The interface contracts\<close>

lemma apply_each_Nil: "apply_each ap s [] = Inr s"
  by (simp add: apply_each_def)

lemma apply_each_Cons:
  "apply_each ap s (c # cs) =
     (case ap c s of Inl err \<Rightarrow> Inl err | Inr s' \<Rightarrow> apply_each ap s' cs)"
proof -
  have stuck:
    "foldl (\<lambda>r c. case r of Inl err \<Rightarrow> Inl err | Inr s' \<Rightarrow> ap c s') (Inl e) cs = Inl e"
    for e by (induction cs) simp_all
  show ?thesis by (simp add: apply_each_def stuck split: sum.splits)
qed

lemma SaveChanges_from_split:
  "\<exists>pre rest. changes = pre @ rest
     \<and> apply_each ap s pre = Inr (snd (SaveChanges_from ap n changes s))
     \<and> fst (fst (SaveChanges_from ap n changes s)) =
         (if pre = [] then n else ChangeNumber (last pre))
     \<and> (rest = [] \<and> snd (fst (SaveChanges_from ap n changes s)) = None
        \<or> (\<exists>c rest' err. rest = c # rest'
              \<and> ap c (snd (SaveChanges_from ap n changes s)) = Inl err
              \<and> snd (fst (SaveChanges_from ap n changes s)) = Some err))"
proof (induction changes arbitrary: s n)
  case Nil
  show ?case by (simp add: apply_each_Nil)
next
  case (Cons c cs)
  show ?case
  proof (cases "ap c s")
    case (Inl err)
    then show ?thesis
      by (intro exI [of _ "[]"] exI [of _ "c # cs"]) (simp add: apply_each_Nil)
  next
    case (Inr s1)
    from Cons.IH [of s1 "ChangeNumber c"] obtain pre rest where
      IH: "cs = pre @ rest"
        "apply_each ap s1 pre = Inr (snd (SaveChanges_from ap (ChangeNumber c) cs s1))"
        "fst (fst (SaveChanges_from ap (ChangeNumber c) cs s1)) =
           (if pre = [] then ChangeNumber c else ChangeNumber (last pre))"
        "rest = [] \<and> snd (fst (SaveChanges_from ap (ChangeNumber c) cs s1)) = None
         \<or> (\<exists>c' rest' err. rest = c' # rest'
              \<and> ap c' (snd (SaveChanges_from ap (ChangeNumber c) cs s1)) = Inl err
              \<and> snd (fst (SaveChanges_from ap (ChangeNumber c) cs s1)) = Some err)"
      by blast
    show ?thesis
      apply (rule exI [of _ "c # pre"])
      apply (rule exI [of _ rest])
      using IH Inr by (simp add: apply_each_Cons)
  qed
qed

text \<open>
  C1. SaveChanges applies the records in the order supplied, one at a time, and stops at
  the first record that fails. The batch splits into the records applied and the rest:
  the state after the call is the state after applying exactly the first part, each
  record to the state its predecessor left; no record of the rest is applied. When some
  record was applied, the number returned is the change number of the last one applied.
  Either the rest is empty and the error is nil, or the first record of the rest is the
  one that failed and its error is the one returned.
\<close>

theorem SaveChanges_stops_at_first_failure:
  "\<exists>pre rest. changes = pre @ rest
     \<and> apply_each ap s pre = Inr (snd (SaveChanges ap changes s))
     \<and> (pre \<noteq> [] \<longrightarrow> fst (fst (SaveChanges ap changes s)) = ChangeNumber (last pre))
     \<and> (rest = [] \<and> snd (fst (SaveChanges ap changes s)) = None
        \<or> (\<exists>c rest' err. rest = c # rest'
              \<and> ap c (snd (SaveChanges ap changes s)) = Inl err
              \<and> snd (fst (SaveChanges ap changes s)) = Some err))"
proof -
  from SaveChanges_from_split [of changes ap s 0] obtain pre rest where
    split: "changes = pre @ rest"
      "apply_each ap s pre = Inr (snd (SaveChanges_from ap 0 changes s))"
      "fst (fst (SaveChanges_from ap 0 changes s)) =
         (if pre = [] then 0 else ChangeNumber (last pre))"
      "rest = [] \<and> snd (fst (SaveChanges_from ap 0 changes s)) = None
       \<or> (\<exists>c rest' err. rest = c # rest'
            \<and> ap c (snd (SaveChanges_from ap 0 changes s)) = Inl err
            \<and> snd (fst (SaveChanges_from ap 0 changes s)) = Some err)"
    by blast
  show ?thesis
    apply (rule exI [of _ pre])
    apply (rule exI [of _ rest])
    using split by (simp add: SaveChanges_def)
qed

lemma SaveChanges_batch:
  "fst (SaveChanges engine_apply [c10, c11, c12] Map.empty) = (10, Some StorageError)"
  "snd (SaveChanges engine_apply [c10, c11, c12] Map.empty) ''a'' = Some ''1''"
  "snd (SaveChanges engine_apply [c10, c11, c12] Map.empty) ''b'' = None"
  "snd (SaveChanges engine_apply [c10, c11, c12] Map.empty) ''c'' = None"
  "fst (SaveChanges engine_apply [c10, c12] Map.empty) = (12, None)"
  by (simp_all add: SaveChanges_def engine_apply_def c10_def c11_def c12_def)

theorem SaveChanges_stops_at_first_failure_witness:
  "fst (SaveChanges engine_apply [c10, c11, c12] Map.empty) = (10, Some StorageError)
   \<and> snd (SaveChanges engine_apply [c10, c11, c12] Map.empty) ''a'' = Some ''1''
   \<and> snd (SaveChanges engine_apply [c10, c11, c12] Map.empty) ''b'' = None
   \<and> snd (SaveChanges engine_apply [c10, c11, c12] Map.empty) ''c'' = None
   \<and> fst (SaveChanges engine_apply [c10, c12] Map.empty) = (12, None)
   \<and> (\<exists>pre rest. [c10, c11, c12] = pre @ rest
        \<and> apply_each engine_apply Map.empty pre =
            Inr (snd (SaveChanges engine_apply [c10, c11, c12] Map.empty))
        \<and> (rest = [] \<and> snd (fst (SaveChanges engine_apply [c10, c11, c12] Map.empty)) = None
           \<or> (\<exists>c rest' err. rest = c # rest'
                \<and> engine_apply c (snd (SaveChanges engine_apply [c10, c11, c12] Map.empty)) =
                    Inl err
                \<and> snd (fst (SaveChanges engine_apply [c10, c11, c12] Map.empty)) = Some err)))"
  using SaveChanges_stops_at_first_failure
    [where ap = engine_apply and changes = "[c10, c11, c12]" and s = Map.empty]
    SaveChanges_batch
  by blast

lemma bytes_equal_iff: "bytes_equal a b \<longleftrightarrow> a = b"
  by (induction a b rule: bytes_equal.induct) auto

text \<open>
  C2. CompareAndSet returns (true, nil) and sets the key to the update when the current
  value at the key equals the expected value byte for byte, and (false, nil) with the
  store unchanged otherwise: a mismatch is not an error. With nil as the expected value
  it succeeds exactly when the key does not exist, and then creates it with the update.
\<close>

theorem CompareAndSet_swaps_on_match:
  "CompareAndSet key expect update s =
     (if s key = expect then ((True, None), s(key \<mapsto> update)) else ((False, None), s))
   \<and> CompareAndSet key None update s =
       (if key \<in> dom s then ((False, None), s) else ((True, None), s(key \<mapsto> update)))"
  by (auto simp: CompareAndSet_def bytes_equal_iff split: option.splits)

theorem CompareAndSet_swaps_on_match_witness:
  "CompareAndSet ''k'' (Some ''v1'') ''v2'' [''k'' \<mapsto> ''v1''] =
     ((True, None), [''k'' \<mapsto> ''v1'', ''k'' \<mapsto> ''v2''])
   \<and> CompareAndSet ''k'' (Some ''zz'') ''v2'' [''k'' \<mapsto> ''v1''] =
       ((False, None), [''k'' \<mapsto> ''v1''])
   \<and> CompareAndSet ''k'' None ''v2'' [''k'' \<mapsto> ''v1''] = ((False, None), [''k'' \<mapsto> ''v1''])
   \<and> CompareAndSet ''n'' None ''v2'' [''k'' \<mapsto> ''v1''] =
       ((True, None), [''k'' \<mapsto> ''v1'', ''n'' \<mapsto> ''v2''])"
  using CompareAndSet_swaps_on_match [of "''k''" "Some ''v1''" "''v2''" "[''k'' \<mapsto> ''v1'']"]
    CompareAndSet_swaps_on_match [of "''k''" "Some ''zz''" "''v2''" "[''k'' \<mapsto> ''v1'']"]
    CompareAndSet_swaps_on_match [of "''k''" None "''v2''" "[''k'' \<mapsto> ''v1'']"]
    CompareAndSet_swaps_on_match [of "''n''" None "''v2''" "[''k'' \<mapsto> ''v1'']"]
  by simp

lemma Get_from_result:
  "Get_from rd keys acc =
     (if list_ex (\<lambda>k. rd k = Failed) keys then ([], Some StorageError)
      else (acc @ concat (map (\<lambda>k. found (rd k)) keys), None))"
  by (induction keys arbitrary: acc) (auto split: engine_read.splits)

text \<open>
  C3. A bulk Get either returns all the requested values that exist, in the order of the
  request, with a nil error, or fails wholesale: when the engine cannot read one of the
  requested keys, the call returns the error and no pair at all, also none of the pairs
  it had read before the failure.
\<close>

theorem Get_all_or_nothing:
  "Get rd keys =
     (if \<exists>k \<in> set keys. rd k = Failed then ([], Some StorageError)
      else (concat (map (\<lambda>k. found (rd k)) keys), None))"
  by (simp add: Get_def Get_from_result list_ex_iff)

theorem Get_all_or_nothing_witness:
  "Get flaky_read [''a'', ''zz''] = ([\<lparr> Key = ''a'', Value = ''1'', ExpireTS = 0 \<rparr>], None)
   \<and> Get flaky_read [''a'', ''bad'', ''zz''] = ([], Some StorageError)"
  using Get_all_or_nothing [of flaky_read "[''a'', ''zz'']"]
    Get_all_or_nothing [of flaky_read "[''a'', ''bad'', ''zz'']"]
  by (simp add: flaky_read_def)

text \<open>
  C6. RestoreFrom returns the capability set of the restored store and an error. On
  success the error is nil and the four capabilities (KVStore, Backupable,
  ChangePropagator, ChangeApplier) all refer to one store, which is fresh: its reference
  was not in use before the call, it holds the keyspace of the backup, and every store
  that existed before the call is unchanged. On failure the error is a RestoreError, the
  four capabilities are nil and no store is created or changed.
\<close>

theorem RestoreFrom_fresh_capabilities:
  assumes "RestoreFrom disk self p h = ((kv, bk, cp, ca, err), h')"
  shows "(err = None \<and> kv = Some (length h) \<and> bk = kv \<and> cp = kv \<and> ca = kv
          \<and> (\<exists>kvs. disk p = Some (Image kvs) \<and> h' = h @ [map_of kvs])
          \<and> take (length h) h' = h)
         \<or> (err = Some RestoreError \<and> kv = None \<and> bk = None \<and> cp = None \<and> ca = None
            \<and> h' = h)"
proof (cases "disk p")
  case None
  with assms show ?thesis by (simp add: RestoreFrom_def)
next
  case (Some b)
  show ?thesis
  proof (cases b)
    case Corrupt
    with Some assms show ?thesis by (simp add: RestoreFrom_def)
  next
    case (Image kvs)
    with Some assms show ?thesis by (auto simp: RestoreFrom_def Let_def)
  qed
qed

lemma RestoreFrom_backups0:
  "RestoreFrom backups0 0 ''/backup/1'' [Map.empty] =
     ((Some 1, Some 1, Some 1, Some 1, None), [Map.empty, map_of [(''k'', ''v'')]])"
  "RestoreFrom backups0 0 ''/backup/torn'' [Map.empty] =
     ((None, None, None, None, Some RestoreError), [Map.empty])"
  "RestoreFrom backups0 0 ''/nowhere'' [Map.empty] =
     ((None, None, None, None, Some RestoreError), [Map.empty])"
  by (simp_all add: RestoreFrom_def backups0_def)

theorem RestoreFrom_fresh_capabilities_witness:
  "RestoreFrom backups0 0 ''/backup/1'' [Map.empty] =
     ((Some 1, Some 1, Some 1, Some 1, None), [Map.empty, map_of [(''k'', ''v'')]])
   \<and> RestoreFrom backups0 0 ''/backup/torn'' [Map.empty] =
       ((None, None, None, None, Some RestoreError), [Map.empty])
   \<and> take (length [Map.empty :: keyspace]) [Map.empty, map_of [(''k'', ''v'')]] = [Map.empty]"
  using RestoreFrom_fresh_capabilities [OF RestoreFrom_backups0(1)]
    RestoreFrom_fresh_capabilities [OF RestoreFrom_backups0(2)] RestoreFrom_backups0
  by simp

end
